theory Spec2Isabelle
  imports Main
begin

section \<open>Attribute support of microxml: the data of \<^verbatim>\<open>mxml-attr.c\<close>\<close>

text \<open>
  The C file works on \<^verbatim>\<open>mxml_node_t\<close>, whose declaration (\<^verbatim>\<open>microxml.h\<close>) is
  not among the sources. The fields the file reads and writes are
  \<^verbatim>\<open>node->type\<close>, \<^verbatim>\<open>node->value.element.name\<close>,
  \<^verbatim>\<open>node->value.element.num_attrs\<close> and \<^verbatim>\<open>node->value.element.attrs\<close>,
  the last one an array of \<^verbatim>\<open>mxml_attr_t\<close> with the two \<^verbatim>\<open>char *\<close> fields
  \<^verbatim>\<open>name\<close> and \<^verbatim>\<open>value\<close>.

  \<^item> A \<^verbatim>\<open>char *\<close> that may be \<^verbatim>\<open>NULL\<close> is a \<open>string option\<close>.
  \<^item> The array behind \<^verbatim>\<open>attrs\<close> is the list of all its allocated slots; the count
    \<^verbatim>\<open>num_attrs\<close> is a field of its own, an \<^verbatim>\<open>int\<close> as in C.
  \<^item> A node pointer that may be \<^verbatim>\<open>NULL\<close> is an \<open>mxml_node option\<close>; a function
    that writes through the pointer returns the node it leaves behind.
  \<^item> What C leaves undefined (\<^verbatim>\<open>strcmp\<close> on \<^verbatim>\<open>NULL\<close>, a read or write
    past the array, \<^verbatim>\<open>INT_MAX + 1\<close>) is a \<open>fault\<close>, the left summand of the result.
  \<^item> \<^verbatim>\<open>free\<close> has no counterpart: the model keeps no heap of strings.
  \<^item> The fields keep their C names behind a prefix (\<open>attr_name\<close>, \<open>el_name\<close>), since
    both structs have a field \<^verbatim>\<open>name\<close>; \<^verbatim>\<open>node->type\<close> is \<open>ntype\<close>.
\<close>

datatype fault = NullDeref | OutOfBounds | SignedOverflow

text \<open>
  Modelled from the spec: the enumeration \<^verbatim>\<open>mxml_type_t\<close> is declared in
  \<^verbatim>\<open>microxml.h\<close>, which is missing. The spec says a node is "tagged as one of
  several node kinds"; the code only ever compares the tag with \<^verbatim>\<open>MXML_ELEMENT\<close>,
  so every other kind is \<open>MXML_OTHER k\<close>.
\<close>

datatype mxml_type = MXML_ELEMENT | MXML_OTHER nat

record mxml_attr =
  attr_name :: "string option"
  attr_value :: "string option"

record mxml_element =
  el_name :: string
  num_attrs :: int
  attrs :: "mxml_attr list"

record mxml_node =
  ntype :: mxml_type
  element :: mxml_element

text \<open>
  The surroundings of a call: the outcomes of the allocation requests still to come
  (\<^verbatim>\<open>strdup\<close>, \<^verbatim>\<open>malloc\<close>, \<^verbatim>\<open>realloc\<close>), in call order, \<open>False\<close> for a
  request that returns \<^verbatim>\<open>NULL\<close> (a request beyond the end of the plan succeeds);
  what a freshly allocated slot holds before it is written; and the messages handed to
  \<^verbatim>\<open>mxml_error\<close> so far, oldest first.
\<close>

record world =
  alloc_plan :: "bool list"
  uninit :: mxml_attr
  errors :: "string list"

definition INT_MAX :: int where
  "INT_MAX = 2147483647"

section \<open>The collaborators\<close>

definition alloc :: "world \<Rightarrow> bool \<times> world" where
  "alloc w = (case alloc_plan w of
                [] \<Rightarrow> (True, w)
              | b # bs \<Rightarrow> (b, w\<lparr>alloc_plan := bs\<rparr>))"

definition strdup :: "string \<Rightarrow> world \<Rightarrow> string option \<times> world" where
  "strdup s w = (case alloc w of (ok, w') \<Rightarrow> (if ok then Some s else None, w'))"

text \<open>
  \<^verbatim>\<open>realloc(p, m * sizeof(mxml_attr_t))\<close> when it succeeds: the first \<open>m\<close> slots of
  the old block, then slots that nothing has written yet.
  \<^verbatim>\<open>malloc(sizeof(mxml_attr_t))\<close> is the same from an empty block.
\<close>

definition realloc_attrs :: "mxml_attr \<Rightarrow> mxml_attr list \<Rightarrow> nat \<Rightarrow> mxml_attr list" where
  "realloc_attrs u xs m = take m xs @ replicate (m - length xs) u"

definition malloc_attr :: "mxml_attr \<Rightarrow> mxml_attr list" where
  "malloc_attr u = [u]"

text \<open>
  Modelled from the spec: \<^verbatim>\<open>mxml_error\<close> lives in another file of the library. The spec
  describes the Error Reporter as "invoked with a formatted diagnostic string" and as one
  that "does not unwind or terminate the process". The model appends the formatted string to
  the log. \<open>alloc_message\<close> is the one format string the file uses,
  \<^verbatim>\<open>"Unable to allocate memory for attribute '%s' in element %s!"\<close>, filled in.
\<close>

definition mxml_error :: "string \<Rightarrow> world \<Rightarrow> world" where
  "mxml_error msg w = w\<lparr>errors := errors w @ [msg]\<rparr>"

definition alloc_message :: "string \<Rightarrow> string \<Rightarrow> string" where
  "alloc_message name ename =
     ''Unable to allocate memory for attribute '' @ [CHR 0x27] @ name @ [CHR 0x27] @
     '' in element '' @ ename @ ''!''"

section \<open>The operations\<close>

subsection \<open>\<^verbatim>\<open>mxmlElementDeleteAttr\<close>\<close>

text \<open>
  \<^verbatim>\<open>memmove(attr, attr + 1, j * sizeof(mxml_attr_t))\<close> on the part of the array that
  starts at \<^verbatim>\<open>attr\<close>: the \<open>j\<close> slots after the first one move one place down; the
  slot they leave last keeps what it held. Moving no slot changes nothing; moving more slots
  than the array has reads past its end.
\<close>

definition memmove_down :: "nat \<Rightarrow> mxml_attr list \<Rightarrow> fault + mxml_attr list" where
  "memmove_down j xs =
     (if j = 0 then Inr xs
      else if j \<le> length (tl xs) then Inr (take j (tl xs) @ drop (j - 1) (tl xs))
      else Inl OutOfBounds)"

text \<open>
  The loop of \<^verbatim>\<open>mxmlElementDeleteAttr\<close>. \<open>i\<close> is the loop counter, the list is the
  array from \<^verbatim>\<open>attr\<close> on. The result is \<open>None\<close> when the loop ends without a match,
  and the array from \<^verbatim>\<open>attr\<close> on as the loop leaves it otherwise.
\<close>

fun delete_loop :: "int \<Rightarrow> mxml_attr list \<Rightarrow> string \<Rightarrow> fault + mxml_attr list option" where
  "delete_loop i [] name = (if i > 0 then Inl OutOfBounds else Inr None)"
| "delete_loop i (a # as) name =
     (if i > 0 then
        (case attr_name a of
           None \<Rightarrow> Inl NullDeref
         | Some s \<Rightarrow>
             if s = name then
               (if i - 1 > 0 then
                  (case memmove_down (nat (i - 1)) (a # as) of
                     Inl f \<Rightarrow> Inl f
                   | Inr moved \<Rightarrow> Inr (Some moved))
                else Inr (Some (a # as)))
             else
               (case delete_loop (i - 1) as name of
                  Inl f \<Rightarrow> Inl f
                | Inr None \<Rightarrow> Inr None
                | Inr (Some as') \<Rightarrow> Inr (Some (a # as'))))
      else Inr None)"

definition mxmlElementDeleteAttr ::
  "world \<Rightarrow> mxml_node option \<Rightarrow> string option \<Rightarrow> fault + (world \<times> mxml_node option)" where
  "mxmlElementDeleteAttr w node name =
     (case node of
        None \<Rightarrow> Inr (w, node)
      | Some n \<Rightarrow>
          if ntype n \<noteq> MXML_ELEMENT then Inr (w, node)
          else (case name of
                  None \<Rightarrow> Inr (w, node)
                | Some nm \<Rightarrow>
                    (case delete_loop (num_attrs (element n)) (attrs (element n)) nm of
                       Inl f \<Rightarrow> Inl f
                     | Inr None \<Rightarrow> Inr (w, node)
                     | Inr (Some xs) \<Rightarrow>
                         Inr (w, Some (n\<lparr>element := (element n)
                                  \<lparr>num_attrs := num_attrs (element n) - 1, attrs := xs\<rparr>\<rparr>)))))"

subsection \<open>\<^verbatim>\<open>mxmlElementGetAttrValue\<close>\<close>

fun get_value_loop :: "int \<Rightarrow> mxml_attr list \<Rightarrow> string \<Rightarrow> fault + string option" where
  "get_value_loop i [] name = (if i > 0 then Inl OutOfBounds else Inr None)"
| "get_value_loop i (a # as) name =
     (if i > 0 then
        (case attr_name a of
           None \<Rightarrow> Inl NullDeref
         | Some s \<Rightarrow> if s = name then Inr (attr_value a) else get_value_loop (i - 1) as name)
      else Inr None)"

definition mxmlElementGetAttrValue ::
  "mxml_node option \<Rightarrow> string option \<Rightarrow> fault + string option" where
  "mxmlElementGetAttrValue node name =
     (case node of
        None \<Rightarrow> Inr None
      | Some n \<Rightarrow>
          if ntype n \<noteq> MXML_ELEMENT then Inr None
          else (case name of
                  None \<Rightarrow> Inr None
                | Some nm \<Rightarrow> get_value_loop (num_attrs (element n)) (attrs (element n)) nm))"

subsection \<open>\<^verbatim>\<open>mxmlElementGetAttrName\<close>\<close>

fun get_name_loop :: "int \<Rightarrow> mxml_attr list \<Rightarrow> string \<Rightarrow> fault + string option" where
  "get_name_loop i [] val = (if i > 0 then Inl OutOfBounds else Inr None)"
| "get_name_loop i (a # as) val =
     (if i > 0 then
        (case attr_value a of
           None \<Rightarrow> Inl NullDeref
         | Some s \<Rightarrow> if s = val then Inr (attr_name a) else get_name_loop (i - 1) as val)
      else Inr None)"

definition mxmlElementGetAttrName ::
  "mxml_node option \<Rightarrow> string option \<Rightarrow> fault + string option" where
  "mxmlElementGetAttrName node val =
     (case node of
        None \<Rightarrow> Inr None
      | Some n \<Rightarrow>
          if ntype n \<noteq> MXML_ELEMENT then Inr None
          else (case val of
                  None \<Rightarrow> Inr None
                | Some v \<Rightarrow> get_name_loop (num_attrs (element n)) (attrs (element n)) v))"

subsection \<open>\<^verbatim>\<open>mxml_set_attr\<close>\<close>

text \<open>
  The search loop of \<^verbatim>\<open>mxml_set_attr\<close>: \<open>None\<close> when no slot matches, otherwise the
  array with \<^verbatim>\<open>attr->value = value\<close> done at the first match.
\<close>

fun set_loop ::
  "int \<Rightarrow> mxml_attr list \<Rightarrow> string \<Rightarrow> string option \<Rightarrow> fault + mxml_attr list option" where
  "set_loop i [] name val = (if i > 0 then Inl OutOfBounds else Inr None)"
| "set_loop i (a # as) name val =
     (if i > 0 then
        (case attr_name a of
           None \<Rightarrow> Inl NullDeref
         | Some s \<Rightarrow>
             if s = name then Inr (Some (a\<lparr>attr_value := val\<rparr> # as))
             else
               (case set_loop (i - 1) as name val of
                  Inl f \<Rightarrow> Inl f
                | Inr None \<Rightarrow> Inr None
                | Inr (Some as') \<Rightarrow> Inr (Some (a # as'))))
      else Inr None)"

text \<open>
  The block a successful allocation returns on the adding path:
  \<^verbatim>\<open>if (num_attrs == 0) attr = malloc(sizeof(mxml_attr_t)); else attr = realloc(attrs, (num_attrs + 1) * sizeof(mxml_attr_t));\<close>
\<close>

definition grow_attrs :: "mxml_attr \<Rightarrow> mxml_attr list \<Rightarrow> int \<Rightarrow> mxml_attr list" where
  "grow_attrs u xs cnt =
     (if cnt = 0 then malloc_attr u else realloc_attrs u xs (nat (cnt + 1)))"

text \<open>
  A write through \<^verbatim>\<open>attr\<close> after \<^verbatim>\<open>attr += num_attrs\<close>: slot \<open>k\<close> of the array,
  which has to exist.
\<close>

definition write_slot ::
  "mxml_attr list \<Rightarrow> int \<Rightarrow> (mxml_attr \<Rightarrow> mxml_attr) \<Rightarrow> fault + mxml_attr list" where
  "write_slot xs k f =
     (if 0 \<le> k \<and> nat k < length xs then Inr (xs[nat k := f (xs ! nat k)])
      else Inl OutOfBounds)"

text \<open>
  The result is the returned \<^verbatim>\<open>int\<close> (0 or -1), the world and the node after the call.
  On the path that adds a slot the steps are those of the source, in its order: the
  allocation (\<^verbatim>\<open>malloc\<close> for a count of 0, \<^verbatim>\<open>realloc\<close> to \<^verbatim>\<open>num_attrs + 1\<close>
  slots otherwise), the report and \<^verbatim>\<open>return (-1)\<close> when it fails, the store of the new
  block into the node, the copy of the name written into the slot at \<^verbatim>\<open>num_attrs\<close>
  (\<^verbatim>\<open>NULL\<close> when the copy fails, followed by the report and \<^verbatim>\<open>return (-1)\<close>), the
  store of the value pointer and the increment of the count.
  \<^verbatim>\<open>num_attrs + 1\<close> in the argument of \<^verbatim>\<open>realloc\<close> is an \<^verbatim>\<open>int\<close> addition,
  undefined at \<^verbatim>\<open>INT_MAX\<close> (taken as that of a 32-bit \<^verbatim>\<open>int\<close>); a count of 0
  does not reach it and is not \<^verbatim>\<open>INT_MAX\<close>, so one test covers it, and the later
  \<^verbatim>\<open>num_attrs ++\<close> then cannot overflow.
\<close>

definition mxml_set_attr ::
  "world \<Rightarrow> mxml_node \<Rightarrow> string \<Rightarrow> string option \<Rightarrow> fault + (int \<times> world \<times> mxml_node)" where
  "mxml_set_attr w n name val =
     (let e = element n; cnt = num_attrs e in
      case set_loop cnt (attrs e) name val of
        Inl f \<Rightarrow> Inl f
      | Inr (Some xs) \<Rightarrow> Inr (0, w, n\<lparr>element := e\<lparr>attrs := xs\<rparr>\<rparr>)
      | Inr None \<Rightarrow>
          if cnt = INT_MAX then Inl SignedOverflow
          else
            (case alloc w of (ok, w1) \<Rightarrow>
               if \<not> ok then Inr (-1, mxml_error (alloc_message name (el_name e)) w1, n)
               else
                 (let arr = grow_attrs (uninit w) (attrs e) cnt
                  in case strdup name w1 of (namec, w2) \<Rightarrow>
                       (case write_slot arr cnt (\<lambda>a. a\<lparr>attr_name := namec\<rparr>) of
                          Inl f \<Rightarrow> Inl f
                        | Inr arr1 \<Rightarrow>
                            if namec = None then
                              Inr (-1, mxml_error (alloc_message name (el_name e)) w2,
                                   n\<lparr>element := e\<lparr>attrs := arr1\<rparr>\<rparr>)
                            else
                              (case write_slot arr1 cnt (\<lambda>a. a\<lparr>attr_value := val\<rparr>) of
                                 Inl f \<Rightarrow> Inl f
                               | Inr arr2 \<Rightarrow>
                                   Inr (0, w2, n\<lparr>element := e
                                          \<lparr>num_attrs := cnt + 1, attrs := arr2\<rparr>\<rparr>))))))"

subsection \<open>\<^verbatim>\<open>mxmlElementSetAttr\<close>\<close>

text \<open>
  The function returns \<^verbatim>\<open>void\<close>: the model returns the world and the node it leaves.
  The copy of the value is not checked in the source; a failed copy hands
  \<^verbatim>\<open>NULL\<close> to \<^verbatim>\<open>mxml_set_attr\<close>. The final \<^verbatim>\<open>free(valuec)\<close> on a non-zero
  return has no effect on the model.
\<close>

definition copy_value :: "string option \<Rightarrow> world \<Rightarrow> string option \<times> world" where
  "copy_value val w = (case val of Some v \<Rightarrow> strdup v w | None \<Rightarrow> (None, w))"

definition mxmlElementSetAttr ::
  "world \<Rightarrow> mxml_node option \<Rightarrow> string option \<Rightarrow> string option
     \<Rightarrow> fault + (world \<times> mxml_node option)" where
  "mxmlElementSetAttr w node name val =
     (case node of
        None \<Rightarrow> Inr (w, node)
      | Some n \<Rightarrow>
          if ntype n \<noteq> MXML_ELEMENT then Inr (w, node)
          else (case name of
                  None \<Rightarrow> Inr (w, node)
                | Some nm \<Rightarrow>
                    (case copy_value val w of (valuec, w1) \<Rightarrow>
                       (case mxml_set_attr w1 n nm valuec of
                          Inl f \<Rightarrow> Inl f
                        | Inr (rc, w2, n') \<Rightarrow> Inr (w2, Some n')))))"

subsection \<open>\<^verbatim>\<open>mxmlElementSetAttrf\<close>\<close>

text \<open>
  \<^verbatim>\<open>_mxml_vstrdupf\<close> is defined in another file of the library; it is the parameter
  \<open>vstrdupf\<close>, which maps the format and the arguments to the composed string, or to
  \<open>None\<close> for \<^verbatim>\<open>NULL\<close>. The variadic arguments are one value \<open>ap\<close> of any type.
\<close>

definition mxmlElementSetAttrf ::
  "(string \<Rightarrow> 'ap \<Rightarrow> string option) \<Rightarrow> world \<Rightarrow> mxml_node option \<Rightarrow> string option
     \<Rightarrow> string option \<Rightarrow> 'ap \<Rightarrow> fault + (world \<times> mxml_node option)" where
  "mxmlElementSetAttrf vstrdupf w node name format ap =
     (case node of
        None \<Rightarrow> Inr (w, node)
      | Some n \<Rightarrow>
          if ntype n \<noteq> MXML_ELEMENT then Inr (w, node)
          else (case name of
                  None \<Rightarrow> Inr (w, node)
                | Some nm \<Rightarrow>
                    (case format of
                       None \<Rightarrow> Inr (w, node)
                     | Some fmt \<Rightarrow>
                         (case vstrdupf fmt ap of
                            None \<Rightarrow>
                              Inr (mxml_error (alloc_message nm (el_name (element n))) w, node)
                          | Some v \<Rightarrow>
                              (case mxml_set_attr w n nm (Some v) of
                                 Inl f \<Rightarrow> Inl f
                               | Inr (rc, w2, n') \<Rightarrow> Inr (w2, Some n'))))))"

section \<open>What a caller can observe\<close>

text \<open>
  The attribute sequence of a node is the first \<^verbatim>\<open>num_attrs\<close> slots of the array;
  the slots after them are capacity that no loop of the file visits.
\<close>

definition records :: "mxml_node \<Rightarrow> mxml_attr list" where
  "records n = take (nat (num_attrs (element n))) (attrs (element n))"

definition names :: "mxml_node \<Rightarrow> string option list" where
  "names n = map attr_name (records n)"

definition named :: "mxml_attr \<Rightarrow> bool" where
  "named a = (attr_name a \<noteq> None)"

text \<open>
  The data invariants of the spec that the code relies on: the count is not negative and
  not larger than the array, and no record of the sequence has a \<^verbatim>\<open>NULL\<close> name.
  A fresh element (count 0) satisfies them, and every operation keeps them
  (\<open>set_attr_keeps_wf\<close>, \<open>delete_attr_keeps_wf\<close> below).
\<close>

definition wf_node :: "mxml_node \<Rightarrow> bool" where
  "wf_node n = (0 \<le> num_attrs (element n)
                \<and> nat (num_attrs (element n)) \<le> length (attrs (element n))
                \<and> list_all named (records n))"

text \<open>
  \<^verbatim>\<open>mxmlElementSetAttr\<close> returns nothing; the success or failure the spec speaks of
  is the \<^verbatim>\<open>int\<close> that \<^verbatim>\<open>mxml_set_attr\<close> hands back to it (0 on success, -1 on
  failure, as the source comments it).
\<close>

definition set_status :: "world \<Rightarrow> mxml_node \<Rightarrow> string \<Rightarrow> string option \<Rightarrow> fault + int" where
  "set_status w n nm val =
     (case copy_value val w of (valuec, w1) \<Rightarrow>
        (case mxml_set_attr w1 n nm valuec of
           Inl f \<Rightarrow> Inl f
         | Inr (rc, w2, n') \<Rightarrow> Inr rc))"

section \<open>Concrete nodes and worlds\<close>

text \<open>
  The element \<^verbatim>\<open>img\<close> of the spec's scenario: without attributes, with
  \<^verbatim>\<open>src="a.png"\<close>, and with \<^verbatim>\<open>src="a.png" alt="pic"\<close>; a text node; and worlds in
  which every allocation succeeds, and in which the first, the second or the third
  allocation to come fails.
\<close>

definition img_empty :: mxml_node where
  "img_empty = \<lparr>ntype = MXML_ELEMENT,
                element = \<lparr>el_name = ''img'', num_attrs = 0, attrs = []\<rparr>\<rparr>"

definition img_src :: mxml_node where
  "img_src = \<lparr>ntype = MXML_ELEMENT,
              element = \<lparr>el_name = ''img'', num_attrs = 1,
                         attrs = [\<lparr>attr_name = Some ''src'', attr_value = Some ''a.png''\<rparr>]\<rparr>\<rparr>"

definition img_src_alt :: mxml_node where
  "img_src_alt = \<lparr>ntype = MXML_ELEMENT,
                  element = \<lparr>el_name = ''img'', num_attrs = 2,
                             attrs = [\<lparr>attr_name = Some ''src'', attr_value = Some ''a.png''\<rparr>,
                                      \<lparr>attr_name = Some ''alt'', attr_value = Some ''pic''\<rparr>]\<rparr>\<rparr>"

definition text_node :: mxml_node where
  "text_node = \<lparr>ntype = MXML_OTHER 0,
                element = \<lparr>el_name = [], num_attrs = 0, attrs = []\<rparr>\<rparr>"

definition blank_slot :: mxml_attr where
  "blank_slot = \<lparr>attr_name = None, attr_value = None\<rparr>"

definition world_ok :: world where
  "world_ok = \<lparr>alloc_plan = [], uninit = blank_slot, errors = []\<rparr>"

definition world_fail_first :: world where
  "world_fail_first = \<lparr>alloc_plan = [False], uninit = blank_slot, errors = []\<rparr>"

definition world_fail_second :: world where
  "world_fail_second = \<lparr>alloc_plan = [True, False], uninit = blank_slot, errors = []\<rparr>"

definition world_fail_third :: world where
  "world_fail_third = \<lparr>alloc_plan = [True, True, False], uninit = blank_slot, errors = []\<rparr>"

section \<open>The four loops\<close>

lemma get_value_loop_miss:
  "list_all named ys \<Longrightarrow> Some nm \<notin> set (map attr_name ys) \<Longrightarrow>
   get_value_loop (int (length ys)) (ys @ rest) nm = Inr None"
proof (induction ys)
  case Nil
  then show ?case by (cases rest) simp_all
next
  case (Cons y ys)
  then show ?case by (auto simp: named_def)
qed

lemma get_value_loop_hit:
  "list_all named pre \<Longrightarrow> Some nm \<notin> set (map attr_name pre) \<Longrightarrow> attr_name a = Some nm \<Longrightarrow>
   int (length pre) < i \<Longrightarrow>
   get_value_loop i (pre @ a # rest) nm = Inr (attr_value a)"
proof (induction pre arbitrary: i)
  case Nil
  then show ?case by simp
next
  case (Cons y ys)
  then show ?case by (auto simp: named_def)
qed

lemma set_loop_miss:
  "list_all named ys \<Longrightarrow> Some nm \<notin> set (map attr_name ys) \<Longrightarrow>
   set_loop (int (length ys)) (ys @ rest) nm v = Inr None"
proof (induction ys)
  case Nil
  then show ?case by (cases rest) simp_all
next
  case (Cons y ys)
  then show ?case by (auto simp: named_def)
qed

lemma set_loop_hit:
  "list_all named pre \<Longrightarrow> Some nm \<notin> set (map attr_name pre) \<Longrightarrow> attr_name a = Some nm \<Longrightarrow>
   int (length pre) < i \<Longrightarrow>
   set_loop i (pre @ a # rest) nm v = Inr (Some (pre @ a\<lparr>attr_value := v\<rparr> # rest))"
proof (induction pre arbitrary: i)
  case Nil
  then show ?case by simp
next
  case (Cons y ys)
  then show ?case by (auto simp: named_def)
qed

lemma delete_loop_miss:
  "list_all named ys \<Longrightarrow> Some nm \<notin> set (map attr_name ys) \<Longrightarrow>
   delete_loop (int (length ys)) (ys @ rest) nm = Inr None"
proof (induction ys)
  case Nil
  then show ?case by (cases rest) simp_all
next
  case (Cons y ys)
  then show ?case by (auto simp: named_def)
qed

lemma memmove_down_suffix:
  "post \<noteq> [] \<Longrightarrow>
   memmove_down (length post) (a # post @ rest) = Inr (post @ last post # rest)"
proof -
  assume ne: "post \<noteq> []"
  then obtain ys y where post: "post = ys @ [y]"
    by (cases post rule: rev_cases) auto
  have "drop (length post - 1) (post @ rest) = y # rest"
    by (simp add: post)
  then show ?thesis
    by (simp add: memmove_down_def post)
qed

lemma delete_loop_hit:
  "list_all named pre \<Longrightarrow> Some nm \<notin> set (map attr_name pre) \<Longrightarrow> attr_name a = Some nm \<Longrightarrow>
   delete_loop (int (length (pre @ a # post))) (pre @ a # post @ rest) nm
     = Inr (Some (pre @ post @ last (a # post) # rest))"
proof (induction pre)
  case Nil
  show ?case
  proof (cases "post = []")
    case True
    with Nil show ?thesis by simp
  next
    case False
    then have "0 < length post" by simp
    with Nil False memmove_down_suffix [OF False, of a rest] show ?thesis
      by simp
  qed
next
  case (Cons y ys)
  then show ?case by (auto simp: named_def)
qed

section \<open>The operations on a well-formed node\<close>

lemma wf_split:
  assumes "wf_node n"
  shows "attrs (element n) = records n @ drop (nat (num_attrs (element n))) (attrs (element n))"
    and "num_attrs (element n) = int (length (records n))"
    and "list_all named (records n)"
  using assms by (simp_all add: wf_node_def records_def)

lemma first_match:
  assumes "Some nm \<in> set (map attr_name ys)"
  obtains pre a post where "ys = pre @ a # post" "Some nm \<notin> set (map attr_name pre)"
    "attr_name a = Some nm"
proof -
  from assms have "\<exists>a \<in> set ys. attr_name a = Some nm" by auto
  then obtain pre a post where "ys = pre @ a # post" "attr_name a = Some nm"
    "\<forall>y \<in> set pre. attr_name y \<noteq> Some nm"
    by (auto simp: split_list_first_prop_iff)
  moreover from this have "Some nm \<notin> set (map attr_name pre)"
    by (metis (no_types, lifting) imageE list.set_map)
  ultimately show ?thesis using that [of pre a post] by blast
qed

lemma get_value_absent:
  assumes "wf_node n" "ntype n = MXML_ELEMENT" "Some nm \<notin> set (names n)"
  shows "mxmlElementGetAttrValue (Some n) (Some nm) = Inr None"
proof -
  let ?ys = "records n" and ?rest = "drop (nat (num_attrs (element n))) (attrs (element n))"
  have "get_value_loop (int (length ?ys)) (?ys @ ?rest) nm = Inr None"
    using assms wf_split(3) [OF assms(1)] by (intro get_value_loop_miss) (simp_all add: names_def)
  then show ?thesis
    using wf_split(1,2) [OF assms(1)] assms(2) by (simp add: mxmlElementGetAttrValue_def)
qed

lemma get_value_present:
  assumes "wf_node n" "ntype n = MXML_ELEMENT" "records n = pre @ a # post"
    "Some nm \<notin> set (map attr_name pre)" "attr_name a = Some nm"
  shows "mxmlElementGetAttrValue (Some n) (Some nm) = Inr (attr_value a)"
proof -
  let ?rest = "drop (nat (num_attrs (element n))) (attrs (element n))"
  have pre: "list_all named pre"
    using wf_split(3) [OF assms(1)] assms(3) by simp
  have "get_value_loop (int (length (records n))) (pre @ a # (post @ ?rest)) nm = Inr (attr_value a)"
    using pre assms(3-5) by (intro get_value_loop_hit) simp_all
  then show ?thesis
    using wf_split(1,2) [OF assms(1)] assms(2,3) by (simp add: mxmlElementGetAttrValue_def)
qed


lemma records_eq:
  "num_attrs (element n) = int (length ys) \<Longrightarrow> attrs (element n) = ys @ rest \<Longrightarrow> records n = ys"
  by (simp add: records_def)

lemma wf_nodeI:
  "num_attrs (element n) = int (length ys) \<Longrightarrow> attrs (element n) = ys @ rest \<Longrightarrow>
   list_all named ys \<Longrightarrow> wf_node n"
  by (simp add: wf_node_def records_def)

lemma set_attr_present:
  assumes "wf_node n" "records n = pre @ a # post"
    "Some nm \<notin> set (map attr_name pre)" "attr_name a = Some nm"
  shows "mxml_set_attr w n nm v =
           Inr (0, w, n\<lparr>element := (element n)\<lparr>attrs :=
                  pre @ a\<lparr>attr_value := v\<rparr> # post
                    @ drop (nat (num_attrs (element n))) (attrs (element n))\<rparr>\<rparr>)"
proof -
  let ?rest = "drop (nat (num_attrs (element n))) (attrs (element n))"
  have pre: "list_all named pre"
    using wf_split(3) [OF assms(1)] assms(2) by simp
  have "set_loop (int (length (records n))) (pre @ a # (post @ ?rest)) nm v
          = Inr (Some (pre @ a\<lparr>attr_value := v\<rparr> # (post @ ?rest)))"
    using pre assms(2-4) by (intro set_loop_hit) simp_all
  moreover have "attrs (element n) = pre @ a # (post @ ?rest)"
    using wf_split(1) [OF assms(1)] assms(2) by simp
  ultimately show ?thesis
    using wf_split(2) [OF assms(1)] by (simp add: mxml_set_attr_def Let_def)
qed

lemma grown_block:
  assumes "wf_node n"
  shows "\<exists>x. grow_attrs u (attrs (element n)) (num_attrs (element n)) = records n @ [x]"
proof (cases "num_attrs (element n) = 0")
  case True
  then show ?thesis by (simp add: grow_attrs_def malloc_attr_def records_def)
next
  case False
  let ?k = "nat (num_attrs (element n))" and ?xs = "attrs (element n)"
  from assms have k: "0 \<le> num_attrs (element n)" "?k \<le> length ?xs"
    by (simp_all add: wf_node_def)
  then have suc: "nat (num_attrs (element n) + 1) = Suc ?k" by simp
  show ?thesis
  proof (cases "?k < length ?xs")
    case True
    then have "take (Suc ?k) ?xs = take ?k ?xs @ [?xs ! ?k]"
      by (simp add: take_Suc_conv_app_nth)
    with True False show ?thesis
      by (simp add: grow_attrs_def realloc_attrs_def records_def suc)
  next
    case False
    with k have "length ?xs = ?k" by simp
    with \<open>num_attrs (element n) \<noteq> 0\<close> show ?thesis
      by (simp add: grow_attrs_def realloc_attrs_def records_def suc)
  qed
qed

lemma write_slot_last:
  "k = int (length ys) \<Longrightarrow> write_slot (ys @ [x]) k f = Inr (ys @ [f x])"
  by (simp add: write_slot_def)

lemma set_loop_absent:
  assumes "wf_node n" "Some nm \<notin> set (names n)"
  shows "set_loop (num_attrs (element n)) (attrs (element n)) nm v = Inr None"
proof -
  let ?ys = "records n" and ?rest = "drop (nat (num_attrs (element n))) (attrs (element n))"
  have "set_loop (int (length ?ys)) (?ys @ ?rest) nm v = Inr None"
    using assms wf_split(3) [OF assms(1)] by (intro set_loop_miss) (simp_all add: names_def)
  then show ?thesis
    using wf_split(1,2) [OF assms(1)] by simp
qed

text \<open>The three ways the adding path ends.\<close>

lemma set_attr_absent:
  assumes "wf_node n" "Some nm \<notin> set (names n)" "num_attrs (element n) < INT_MAX"
  shows "\<exists>x. mxml_set_attr w n nm v =
          (case alloc w of (ok, w1) \<Rightarrow>
             if \<not> ok then Inr (-1, mxml_error (alloc_message nm (el_name (element n))) w1, n)
             else (case alloc w1 of (ok2, w2) \<Rightarrow>
               if \<not> ok2 then
                 Inr (-1, mxml_error (alloc_message nm (el_name (element n))) w2,
                      n\<lparr>element := (element n)\<lparr>attrs := records n @ [x\<lparr>attr_name := None\<rparr>]\<rparr>\<rparr>)
               else
                 Inr (0, w2, n\<lparr>element := (element n)
                        \<lparr>num_attrs := num_attrs (element n) + 1,
                         attrs := records n @ [\<lparr>attr_name = Some nm, attr_value = v\<rparr>]\<rparr>\<rparr>)))"
proof -
  obtain x where x: "grow_attrs (uninit w) (attrs (element n)) (num_attrs (element n))
             = records n @ [x]"
    using grown_block [OF assms(1)] by blast
  have cnt: "num_attrs (element n) = int (length (records n))"
    by (rule wf_split(2) [OF assms(1)])
  have upd: "x\<lparr>attr_name := Some nm, attr_value := v\<rparr> = \<lparr>attr_name = Some nm, attr_value = v\<rparr>"
    by (cases x) simp
  have ws: "\<And>y f. write_slot (records n @ [y]) (num_attrs (element n)) f = Inr (records n @ [f y])"
    by (rule write_slot_last [OF cnt])
  have ne: "num_attrs (element n) \<noteq> INT_MAX"
    using assms(3) by simp
  have "mxml_set_attr w n nm v =
          (case alloc w of (ok, w1) \<Rightarrow>
             if \<not> ok then Inr (-1, mxml_error (alloc_message nm (el_name (element n))) w1, n)
             else (case alloc w1 of (ok2, w2) \<Rightarrow>
               if \<not> ok2 then
                 Inr (-1, mxml_error (alloc_message nm (el_name (element n))) w2,
                      n\<lparr>element := (element n)\<lparr>attrs := records n @ [x\<lparr>attr_name := None\<rparr>]\<rparr>\<rparr>)
               else
                 Inr (0, w2, n\<lparr>element := (element n)
                        \<lparr>num_attrs := num_attrs (element n) + 1,
                         attrs := records n @ [\<lparr>attr_name = Some nm, attr_value = v\<rparr>]\<rparr>\<rparr>)))"
    by (simp add: mxml_set_attr_def Let_def set_loop_absent [OF assms(1,2)] ne x
        strdup_def ws upd split: prod.splits)
  then show ?thesis by blast
qed

text \<open>The allocator touches the plan only, never the error log.\<close>

lemma alloc_errors: "alloc w = (ok, w1) \<Longrightarrow> errors w1 = errors w"
  by (auto simp: alloc_def split: list.splits)

lemma copy_value_errors: "copy_value val w = (valuec, w1) \<Longrightarrow> errors w1 = errors w"
  by (auto simp: copy_value_def strdup_def alloc_errors split: option.splits prod.splits if_splits)

lemma copy_value_fails:
  "alloc_plan w = False # p \<Longrightarrow> copy_value (Some v) w = (None, w\<lparr>alloc_plan := p\<rparr>)"
  by (simp add: copy_value_def strdup_def alloc_def)

lemma set_attr_present_ex:
  assumes "wf_node n" "records n = pre @ a # post"
    "Some nm \<notin> set (map attr_name pre)" "attr_name a = Some nm"
  shows "\<exists>n'. mxml_set_attr w n nm v = Inr (0, w, n')
            \<and> ntype n' = ntype n \<and> el_name (element n') = el_name (element n)
            \<and> num_attrs (element n') = num_attrs (element n)
            \<and> records n' = pre @ a\<lparr>attr_value := v\<rparr> # post
            \<and> wf_node n'"
proof -
  let ?rest = "drop (nat (num_attrs (element n))) (attrs (element n))"
  let ?ys = "pre @ a\<lparr>attr_value := v\<rparr> # post"
  let ?n' = "n\<lparr>element := (element n)\<lparr>attrs := ?ys @ ?rest\<rparr>\<rparr>"
  have cnt: "num_attrs (element ?n') = int (length ?ys)"
    using wf_split(2) [OF assms(1)] assms(2) by simp
  have arr: "attrs (element ?n') = ?ys @ ?rest" by simp
  have nm: "list_all named ?ys"
    using wf_split(3) [OF assms(1)] assms(2) by (simp add: named_def)
  have "mxml_set_attr w n nm v = Inr (0, w, ?n')"
    using set_attr_present [OF assms, of w v] by simp
  moreover have "records ?n' = ?ys" by (rule records_eq [OF cnt arr])
  moreover have "wf_node ?n'" by (rule wf_nodeI [OF cnt arr nm])
  ultimately show ?thesis by (intro exI [of _ ?n']) simp
qed

lemma set_attr_absent_ex:
  assumes "wf_node n" "Some nm \<notin> set (names n)" "num_attrs (element n) < INT_MAX"
    "alloc w = (ok, w1)" "alloc w1 = (ok2, w2)"
  shows "\<exists>n'. mxml_set_attr w n nm v =
                 Inr (if ok \<and> ok2 then 0 else -1,
                      if ok \<and> ok2 then w2
                      else mxml_error (alloc_message nm (el_name (element n))) (if ok then w2 else w1),
                      n')
            \<and> ntype n' = ntype n \<and> el_name (element n') = el_name (element n)
            \<and> num_attrs (element n') = num_attrs (element n) + (if ok \<and> ok2 then 1 else 0)
            \<and> records n' = records n @ (if ok \<and> ok2 then [\<lparr>attr_name = Some nm, attr_value = v\<rparr>] else [])
            \<and> (\<not> ok \<longrightarrow> n' = n)
            \<and> wf_node n'"
proof -
  obtain x where x: "mxml_set_attr w n nm v =
          (case alloc w of (ok, w1) \<Rightarrow>
             if \<not> ok then Inr (-1, mxml_error (alloc_message nm (el_name (element n))) w1, n)
             else (case alloc w1 of (ok2, w2) \<Rightarrow>
               if \<not> ok2 then
                 Inr (-1, mxml_error (alloc_message nm (el_name (element n))) w2,
                      n\<lparr>element := (element n)\<lparr>attrs := records n @ [x\<lparr>attr_name := None\<rparr>]\<rparr>\<rparr>)
               else
                 Inr (0, w2, n\<lparr>element := (element n)
                        \<lparr>num_attrs := num_attrs (element n) + 1,
                         attrs := records n @ [\<lparr>attr_name = Some nm, attr_value = v\<rparr>]\<rparr>\<rparr>)))"
    using set_attr_absent [OF assms(1-3), of w v] by blast
  have cnt: "num_attrs (element n) = int (length (records n))"
    by (rule wf_split(2) [OF assms(1)])
  have nmd: "list_all named (records n)"
    by (rule wf_split(3) [OF assms(1)])
  show ?thesis
  proof (cases ok)
    case False
    with x assms(1,4) show ?thesis by simp
  next
    case True
    note ok = this
    show ?thesis
    proof (cases ok2)
      case False
      let ?n' = "n\<lparr>element := (element n)\<lparr>attrs := records n @ [x\<lparr>attr_name := None\<rparr>]\<rparr>\<rparr>"
      have c: "num_attrs (element ?n') = int (length (records n))" using cnt by simp
      have a: "attrs (element ?n') = records n @ [x\<lparr>attr_name := None\<rparr>]" by simp
      have "records ?n' = records n" by (rule records_eq [OF c a])
      moreover have "wf_node ?n'" by (rule wf_nodeI [OF c a nmd])
      ultimately show ?thesis
        using x ok False assms(4,5) by (intro exI [of _ ?n']) simp
    next
      case True
      let ?ys = "records n @ [\<lparr>attr_name = Some nm, attr_value = v\<rparr>]"
      let ?n' = "n\<lparr>element := (element n)\<lparr>num_attrs := num_attrs (element n) + 1, attrs := ?ys\<rparr>\<rparr>"
      have c: "num_attrs (element ?n') = int (length ?ys)" using cnt by simp
      have a: "attrs (element ?n') = ?ys @ []" by simp
      have "list_all named ?ys" using nmd by (simp add: named_def)
      then have "wf_node ?n'" by (rule wf_nodeI [OF c a])
      moreover have "records ?n' = ?ys" by (rule records_eq [OF c a])
      ultimately show ?thesis
        using x ok True assms(4,5) by (intro exI [of _ ?n']) simp
    qed
  qed
qed

subsection \<open>Deleting\<close>

lemma delete_attr_absent:
  assumes "wf_node n" "ntype n = MXML_ELEMENT" "Some nm \<notin> set (names n)"
  shows "mxmlElementDeleteAttr w (Some n) (Some nm) = Inr (w, Some n)"
proof -
  let ?ys = "records n" and ?rest = "drop (nat (num_attrs (element n))) (attrs (element n))"
  have "delete_loop (int (length ?ys)) (?ys @ ?rest) nm = Inr None"
    using assms wf_split(3) [OF assms(1)] by (intro delete_loop_miss) (simp_all add: names_def)
  then show ?thesis
    using wf_split(1,2) [OF assms(1)] assms(2) by (simp add: mxmlElementDeleteAttr_def)
qed

lemma delete_attr_present_ex:
  assumes "wf_node n" "ntype n = MXML_ELEMENT" "records n = pre @ a # post"
    "Some nm \<notin> set (map attr_name pre)" "attr_name a = Some nm"
  shows "\<exists>n'. mxmlElementDeleteAttr w (Some n) (Some nm) = Inr (w, Some n')
            \<and> ntype n' = ntype n \<and> el_name (element n') = el_name (element n)
            \<and> num_attrs (element n') = num_attrs (element n) - 1
            \<and> records n' = pre @ post
            \<and> wf_node n'"
proof -
  let ?rest = "drop (nat (num_attrs (element n))) (attrs (element n))"
  let ?ys = "pre @ post"
  let ?arr = "pre @ post @ last (a # post) # ?rest"
  let ?n' = "n\<lparr>element := (element n)\<lparr>num_attrs := num_attrs (element n) - 1, attrs := ?arr\<rparr>\<rparr>"
  have pre: "list_all named pre" and all: "list_all named ?ys"
    using wf_split(3) [OF assms(1)] assms(3) by simp_all
  have old: "attrs (element n) = pre @ a # post @ ?rest"
    "num_attrs (element n) = int (length (pre @ a # post))"
    using wf_split(1,2) [OF assms(1)] assms(3) by simp_all
  have "delete_loop (int (length (pre @ a # post))) (pre @ a # post @ ?rest) nm = Inr (Some ?arr)"
    using pre assms(4,5) by (rule delete_loop_hit)
  then have loop: "delete_loop (num_attrs (element n)) (attrs (element n)) nm = Inr (Some ?arr)"
    using old by simp
  have run: "mxmlElementDeleteAttr w (Some n) (Some nm) = Inr (w, Some ?n')"
    using assms(2) by (simp add: mxmlElementDeleteAttr_def loop)
  have cnt: "num_attrs (element ?n') = int (length ?ys)"
    using old(2) by simp
  have arr: "attrs (element ?n') = ?ys @ last (a # post) # ?rest" by simp
  have "records ?n' = ?ys" by (rule records_eq [OF cnt arr])
  moreover have "wf_node ?n'" by (rule wf_nodeI [OF cnt arr all])
  ultimately show ?thesis
    using run by (intro exI [of _ ?n']) simp
qed

subsection \<open>What the getters depend on, and what the operations keep\<close>

lemma get_value_records:
  assumes "wf_node n" "wf_node n'" "records n' = records n" "ntype n' = ntype n"
  shows "mxmlElementGetAttrValue (Some n') q = mxmlElementGetAttrValue (Some n) q"
proof (cases q)
  case None
  then show ?thesis by (simp add: mxmlElementGetAttrValue_def)
next
  case (Some nm)
  show ?thesis
  proof (cases "ntype n = MXML_ELEMENT")
    case False
    with assms(4) show ?thesis by (simp add: mxmlElementGetAttrValue_def)
  next
    case elem: True
    show ?thesis
    proof (cases "Some nm \<in> set (names n)")
      case False
      then have "Some nm \<notin> set (names n')" using assms(3) by (simp add: names_def)
      with False elem assms show ?thesis
        by (simp add: Some get_value_absent)
    next
      case True
      then obtain pre a post where split: "records n = pre @ a # post"
        "Some nm \<notin> set (map attr_name pre)" "attr_name a = Some nm"
        unfolding names_def by (rule first_match)
      have "mxmlElementGetAttrValue (Some n) (Some nm) = Inr (attr_value a)"
        using assms(1) elem split by (rule get_value_present)
      moreover have "mxmlElementGetAttrValue (Some n') (Some nm) = Inr (attr_value a)"
        using assms(2) _ _ split(2,3) by (rule get_value_present) (simp_all add: assms elem split)
      ultimately show ?thesis by (simp add: Some)
    qed
  qed
qed

lemma wf_fresh:
  "wf_node \<lparr>ntype = t, element = \<lparr>el_name = e, num_attrs = 0, attrs = xs\<rparr>\<rparr>"
  by (simp add: wf_node_def records_def)

lemma set_attr_keeps_wf:
  assumes "wf_node n" "num_attrs (element n) < INT_MAX"
  shows "\<exists>rc w' n'. mxml_set_attr w n nm v = Inr (rc, w', n')
            \<and> ntype n' = ntype n \<and> wf_node n'
            \<and> (distinct (names n) \<longrightarrow> distinct (names n'))"
proof (cases "Some nm \<in> set (names n)")
  case True
  then obtain pre a post where split: "records n = pre @ a # post"
    "Some nm \<notin> set (map attr_name pre)" "attr_name a = Some nm"
    unfolding names_def by (rule first_match)
  from set_attr_present_ex [OF assms(1) split, of w v]
  obtain n' where n': "mxml_set_attr w n nm v = Inr (0, w, n')" "ntype n' = ntype n"
    "records n' = pre @ a\<lparr>attr_value := v\<rparr> # post" "wf_node n'"
    by blast
  have "names n' = names n"
    using n'(3) split(1) by (simp add: names_def)
  with n' show ?thesis by auto
next
  case False
  obtain ok w1 where a1: "alloc w = (ok, w1)" by (cases "alloc w")
  obtain ok2 w2 where a2: "alloc w1 = (ok2, w2)" by (cases "alloc w1")
  from set_attr_absent_ex [OF assms(1) False assms(2) a1 a2, of v]
  obtain rc w' n' where n': "mxml_set_attr w n nm v = Inr (rc, w', n')" "ntype n' = ntype n"
    "records n' = records n @ (if ok \<and> ok2 then [\<lparr>attr_name = Some nm, attr_value = v\<rparr>] else [])"
    "wf_node n'"
    by blast
  have "distinct (names n')" if "distinct (names n)"
    using n'(3) that False by (cases "ok \<and> ok2") (simp_all add: names_def)
  with n' show ?thesis by blast
qed

lemma delete_attr_keeps_wf:
  assumes "wf_node n" "ntype n = MXML_ELEMENT"
  shows "\<exists>n'. mxmlElementDeleteAttr w (Some n) (Some nm) = Inr (w, Some n')
            \<and> wf_node n' \<and> (distinct (names n) \<longrightarrow> distinct (names n'))"
proof (cases "Some nm \<in> set (names n)")
  case False
  with delete_attr_absent [OF assms(1,2) False, of w] assms show ?thesis by blast
next
  case True
  then obtain pre a post where split: "records n = pre @ a # post"
    "Some nm \<notin> set (map attr_name pre)" "attr_name a = Some nm"
    unfolding names_def by (rule first_match)
  from delete_attr_present_ex [OF assms(1,2) split, of w]
  obtain n' where n': "mxmlElementDeleteAttr w (Some n) (Some nm) = Inr (w, Some n')"
    "records n' = pre @ post" "wf_node n'"
    by blast
  have "distinct (names n')" if "distinct (names n)"
    using that n'(2) split(1) by (simp add: names_def)
  with n' show ?thesis by blast
qed

lemma copy_value_succeeds:
  "copy_value (Some s) (w\<lparr>alloc_plan := True # alloc_plan w\<rparr>) = (Some s, w)"
  by (simp add: copy_value_def strdup_def alloc_def)

lemma set_attr_then_get:
  assumes "wf_node n" "ntype n = MXML_ELEMENT" "num_attrs (element n) < INT_MAX"
    "mxml_set_attr w n nm v = Inr (0, w', n')"
  shows "mxmlElementGetAttrValue (Some n') (Some nm) = Inr v"
proof (cases "Some nm \<in> set (names n)")
  case True
  then obtain pre a post where split: "records n = pre @ a # post"
    "Some nm \<notin> set (map attr_name pre)" "attr_name a = Some nm"
    unfolding names_def by (rule first_match)
  from set_attr_present_ex [OF assms(1) split, of w v] assms(4)
  have n': "ntype n' = ntype n" "records n' = pre @ a\<lparr>attr_value := v\<rparr> # post" "wf_node n'"
    by auto
  show ?thesis
    using get_value_present [OF n'(3) _ n'(2) split(2)] n'(1) assms(2) split(3) by simp
next
  case False
  obtain ok w1 where a1: "alloc w = (ok, w1)" by (cases "alloc w")
  obtain ok2 w2 where a2: "alloc w1 = (ok2, w2)" by (cases "alloc w1")
  from set_attr_absent_ex [OF assms(1) False assms(3) a1 a2, of v] assms(4)
  have n': "ntype n' = ntype n"
    "records n' = records n @ (if ok \<and> ok2 then [\<lparr>attr_name = Some nm, attr_value = v\<rparr>] else [])"
    "wf_node n'" and ok: "ok \<and> ok2"
    by (auto split: if_splits)
  have rec: "records n' = records n @ \<lparr>attr_name = Some nm, attr_value = v\<rparr> # []"
    using n'(2) ok by simp
  have "Some nm \<notin> set (map attr_name (records n))"
    using False by (simp add: names_def)
  from get_value_present [OF n'(3) _ rec this] n'(1) assms(2)
  show ?thesis by simp
qed

subsection \<open>The scan by value\<close>

lemma get_name_loop_miss:
  "\<forall>a \<in> set ys. attr_value a \<noteq> None \<and> attr_value a \<noteq> Some v \<Longrightarrow>
   get_name_loop (int (length ys)) (ys @ rest) v = Inr None"
proof (induction ys)
  case Nil
  then show ?case by (cases rest) simp_all
next
  case (Cons y ys)
  then show ?case by auto
qed

lemma get_name_loop_hit:
  "\<forall>b \<in> set pre. attr_value b \<noteq> None \<and> attr_value b \<noteq> Some v \<Longrightarrow>
   attr_value a = Some v \<Longrightarrow> int (length pre) < i \<Longrightarrow>
   get_name_loop i (pre @ a # rest) v = Inr (attr_name a)"
proof (induction pre arbitrary: i)
  case Nil
  then show ?case by simp
next
  case (Cons y ys)
  then show ?case by auto
qed

lemma get_name_loop_null:
  "\<forall>b \<in> set pre. attr_value b \<noteq> None \<and> attr_value b \<noteq> Some v \<Longrightarrow>
   attr_value a = None \<Longrightarrow> int (length pre) < i \<Longrightarrow>
   get_name_loop i (pre @ a # rest) v = Inl NullDeref"
proof (induction pre arbitrary: i)
  case Nil
  then show ?case by simp
next
  case (Cons y ys)
  then show ?case by auto
qed

lemma get_name_no_match:
  assumes "wf_node n" "ntype n = MXML_ELEMENT"
    "\<forall>b \<in> set (records n). attr_value b \<noteq> None \<and> attr_value b \<noteq> Some v"
  shows "mxmlElementGetAttrName (Some n) (Some v) = Inr None"
proof -
  let ?ys = "records n" and ?rest = "drop (nat (num_attrs (element n))) (attrs (element n))"
  have "get_name_loop (int (length ?ys)) (?ys @ ?rest) v = Inr None"
    using assms(3) by (rule get_name_loop_miss)
  then show ?thesis
    using wf_split(1,2) [OF assms(1)] assms(2) by (simp add: mxmlElementGetAttrName_def)
qed

lemma get_name_first_match:
  assumes "wf_node n" "ntype n = MXML_ELEMENT" "records n = pre @ a # post"
    "\<forall>b \<in> set pre. attr_value b \<noteq> None \<and> attr_value b \<noteq> Some v"
    "attr_value a = Some v"
  shows "mxmlElementGetAttrName (Some n) (Some v) = Inr (attr_name a)"
proof -
  let ?rest = "drop (nat (num_attrs (element n))) (attrs (element n))"
  have arr: "attrs (element n) = pre @ a # (post @ ?rest)"
    "num_attrs (element n) = int (length (records n))"
    using wf_split(1,2) [OF assms(1)] assms(3) by simp_all
  have len: "int (length pre) < int (length (records n))"
    using assms(3) by simp
  from get_name_loop_hit [OF assms(4,5) len, of "post @ ?rest"] arr assms(2)
  show ?thesis by (simp add: mxmlElementGetAttrName_def)
qed

text \<open>
  The scan of \<^verbatim>\<open>mxmlElementGetAttrName\<close> that reaches a record without a value before
  it reaches a match ends in \<^verbatim>\<open>strcmp(NULL, value)\<close>.
\<close>

lemma get_name_null_fault:
  assumes "wf_node n" "ntype n = MXML_ELEMENT" "records n = pre @ a # post"
    "\<forall>b \<in> set pre. attr_value b \<noteq> None \<and> attr_value b \<noteq> Some v"
    "attr_value a = None"
  shows "mxmlElementGetAttrName (Some n) (Some v) = Inl NullDeref"
proof -
  let ?rest = "drop (nat (num_attrs (element n))) (attrs (element n))"
  have arr: "attrs (element n) = pre @ a # (post @ ?rest)"
    "num_attrs (element n) = int (length (records n))"
    using wf_split(1,2) [OF assms(1)] assms(3) by simp_all
  have len: "int (length pre) < int (length (records n))"
    using assms(3) by simp
  from get_name_loop_null [OF assms(4,5) len, of "post @ ?rest"] arr assms(2)
  show ?thesis by (simp add: mxmlElementGetAttrName_def)
qed

text \<open>Unfolding sets for running the model on concrete inputs.\<close>

lemmas run_defs =
  mxmlElementSetAttr_def mxmlElementSetAttrf_def mxmlElementDeleteAttr_def
  mxmlElementGetAttrValue_def mxmlElementGetAttrName_def mxml_set_attr_def set_status_def
  copy_value_def strdup_def alloc_def mxml_error_def grow_attrs_def malloc_attr_def
  realloc_attrs_def write_slot_def memmove_down_def INT_MAX_def Let_def

lemmas data_defs =
  img_empty_def img_src_def img_src_alt_def text_node_def blank_slot_def
  world_ok_def world_fail_first_def world_fail_second_def world_fail_third_def

lemmas obs_defs = wf_node_def records_def names_def named_def

section \<open>The claims\<close>

text \<open>
  C1. "If SetValue(E,N,V) returns success, then an immediately following GetValue(E,N)
  returns V." The code does not check the copy of the value: on the empty element
  \<^verbatim>\<open>img\<close>, with the next allocation failing, \<^verbatim>\<open>mxmlElementSetAttr(img, "src", "a.png")\<close>
  ends with \<^verbatim>\<open>mxml_set_attr\<close> returning 0 and no report, the record for
  \<^verbatim>\<open>src\<close> holds \<^verbatim>\<open>NULL\<close>, and \<^verbatim>\<open>mxmlElementGetAttrValue\<close> returns
  \<^verbatim>\<open>NULL\<close>, not \<^verbatim>\<open>"a.png"\<close>.
\<close>

theorem C1_success_without_value:
  "set_status world_fail_first img_empty ''src'' (Some ''a.png'') = Inr 0
   \<and> mxmlElementSetAttr world_fail_first (Some img_empty) (Some ''src'') (Some ''a.png'')
       = Inr (world_ok,
              Some \<lparr>ntype = MXML_ELEMENT,
                    element = \<lparr>el_name = ''img'', num_attrs = 1,
                               attrs = [\<lparr>attr_name = Some ''src'', attr_value = None\<rparr>]\<rparr>\<rparr>)
   \<and> mxmlElementGetAttrValue
         (Some \<lparr>ntype = MXML_ELEMENT,
                element = \<lparr>el_name = ''img'', num_attrs = 1,
                           attrs = [\<lparr>attr_name = Some ''src'', attr_value = None\<rparr>]\<rparr>\<rparr>)
         (Some ''src'') = Inr None"
  by (simp add: run_defs data_defs)

text \<open>
  C2. "Whenever a copy of the name or of the value, or the growth of the array, fails, the
  Error Reporter is invoked and the operation returns failure." A failed copy of the value
  is neither reported nor turned into a failure: on \<^verbatim>\<open>img\<close> with
  \<^verbatim>\<open>src="a.png" alt="pic"\<close>, \<^verbatim>\<open>mxmlElementSetAttr(img, "alt", "photo")\<close> with the
  copy of \<^verbatim>\<open>"photo"\<close> failing leaves the error log empty, and
  \<^verbatim>\<open>mxml_set_attr\<close> returns 0.
\<close>

theorem C2_value_copy_failure_unreported:
  "alloc_plan world_fail_first = [False]
   \<and> copy_value (Some ''photo'') world_fail_first = (None, world_ok)
   \<and> set_status world_fail_first img_src_alt ''alt'' (Some ''photo'') = Inr 0
   \<and> mxmlElementSetAttr world_fail_first (Some img_src_alt) (Some ''alt'') (Some ''photo'')
       = Inr (world_ok,
              Some \<lparr>ntype = MXML_ELEMENT,
                    element = \<lparr>el_name = ''img'', num_attrs = 2,
                               attrs = [\<lparr>attr_name = Some ''src'', attr_value = Some ''a.png''\<rparr>,
                                        \<lparr>attr_name = Some ''alt'', attr_value = None\<rparr>]\<rparr>\<rparr>)
   \<and> errors world_ok = []"
  by (simp add: run_defs data_defs)

text \<open>
  C3. When the growth of the array or the copy of the name fails in
  \<^verbatim>\<open>mxmlElementSetAttr\<close> (the name is not yet in the sequence, so the adding path
  runs), the call completes with \<^verbatim>\<open>mxml_set_attr\<close> returning -1 and one report, and
  afterwards the count, the attribute sequence and the result of
  \<^verbatim>\<open>mxmlElementGetAttrValue\<close> for every name are what they were before the call.
  \<open>grown\<close> and \<open>copied\<close> are the next two entries of the allocation plan after the
  copy of the value: the outcome of \<^verbatim>\<open>malloc\<close> or \<^verbatim>\<open>realloc\<close>, and that of the
  \<^verbatim>\<open>strdup\<close> of the name, which is called only when the array has grown.
\<close>

theorem C3_failed_set_unobservable:
  assumes "wf_node n" "ntype n = MXML_ELEMENT"
    "Some nm \<notin> set (names n)" "num_attrs (element n) < INT_MAX"
    "copy_value val w = (valuec, w1)" "alloc w1 = (grown, w2)" "alloc w2 = (copied, w3)"
    "\<not> grown \<or> \<not> copied"
  shows "\<exists>w' n'. mxmlElementSetAttr w (Some n) (Some nm) val = Inr (w', Some n')
           \<and> set_status w n nm val = Inr (- 1)
           \<and> errors w' = errors w @ [alloc_message nm (el_name (element n))]
           \<and> num_attrs (element n') = num_attrs (element n)
           \<and> records n' = records n
           \<and> (\<forall>q. mxmlElementGetAttrValue (Some n') q = mxmlElementGetAttrValue (Some n) q)"
proof -
  let ?w' = "mxml_error (alloc_message nm (el_name (element n))) (if grown then w3 else w2)"
  from set_attr_absent_ex [OF assms(1,3,4,6,7), of valuec] assms(8)
  obtain n' where n': "mxml_set_attr w1 n nm valuec = Inr (- 1, ?w', n')"
    "ntype n' = ntype n" "num_attrs (element n') = num_attrs (element n)"
    "records n' = records n" "wf_node n'"
    by auto
  have "errors w3 = errors w" "errors w2 = errors w"
    using copy_value_errors [OF assms(5)] alloc_errors [OF assms(6)] alloc_errors [OF assms(7)]
    by simp_all
  then have err: "errors ?w' = errors w @ [alloc_message nm (el_name (element n))]"
    by (simp add: mxml_error_def)
  have run: "mxmlElementSetAttr w (Some n) (Some nm) val = Inr (?w', Some n')"
    using assms(2,5) n'(1) by (simp add: mxmlElementSetAttr_def)
  have st: "set_status w n nm val = Inr (- 1)"
    using assms(5) n'(1) by (simp add: set_status_def)
  have "\<forall>q. mxmlElementGetAttrValue (Some n') q = mxmlElementGetAttrValue (Some n) q"
    using get_value_records [OF assms(1) n'(5,4,2)] by blast
  with run st err n'(3,4) show ?thesis by blast
qed

theorem C3_failed_set_unobservable_witness:
  "wf_node img_src \<and> ntype img_src = MXML_ELEMENT
   \<and> Some ''alt'' \<notin> set (names img_src) \<and> num_attrs (element img_src) < INT_MAX
   \<and> copy_value (Some ''pic'') world_fail_third = (Some ''pic'', world_fail_second)
   \<and> alloc world_fail_second = (True, world_fail_first)
   \<and> alloc world_fail_first = (False, world_ok)
   \<and> (\<exists>w' n'. mxmlElementSetAttr world_fail_third (Some img_src) (Some ''alt'') (Some ''pic'')
                   = Inr (w', Some n')
          \<and> set_status world_fail_third img_src ''alt'' (Some ''pic'') = Inr (- 1)
          \<and> errors w' = errors world_fail_third @ [alloc_message ''alt'' (el_name (element img_src))]
          \<and> num_attrs (element n') = num_attrs (element img_src)
          \<and> records n' = records img_src
          \<and> (\<forall>q. mxmlElementGetAttrValue (Some n') q = mxmlElementGetAttrValue (Some img_src) q))"
proof -
  have h1: "wf_node img_src"
    by (simp add: obs_defs data_defs)
  have h2: "ntype img_src = MXML_ELEMENT"
    by (simp add: data_defs)
  have h3: "Some ''alt'' \<notin> set (names img_src)"
    by (simp add: obs_defs data_defs)
  have h4: "num_attrs (element img_src) < INT_MAX"
    by (simp add: data_defs INT_MAX_def)
  have h5: "copy_value (Some ''pic'') world_fail_third = (Some ''pic'', world_fail_second)"
    by (simp add: copy_value_def strdup_def alloc_def data_defs)
  have h6: "alloc world_fail_second = (True, world_fail_first)"
    by (simp add: alloc_def data_defs)
  have h7: "alloc world_fail_first = (False, world_ok)"
    by (simp add: alloc_def data_defs)
  have h8: "\<not> True \<or> \<not> False" by simp
  from C3_failed_set_unobservable [OF h1 h2 h3 h4 h5 h6 h7 h8] h1 h2 h3 h4 h5 h6 h7
  show ?thesis by simp
qed

text \<open>
  C4. \<^verbatim>\<open>mxmlElementDeleteAttr\<close> on a name that is in the sequence removes the first
  record with that name and nothing else: the records before and after it stay, in their
  order, and the count goes down by 1. On a name that is not in the sequence it returns the
  node as it was. In both cases the world is returned as it was: nothing is reported and
  nothing is allocated.
\<close>

theorem C4_delete_by_name:
  assumes "wf_node n" "ntype n = MXML_ELEMENT"
  shows "(Some nm \<in> set (names n) \<longrightarrow>
           (\<exists>pre a post n'.
               records n = pre @ a # post
             \<and> Some nm \<notin> set (map attr_name pre) \<and> attr_name a = Some nm
             \<and> mxmlElementDeleteAttr w (Some n) (Some nm) = Inr (w, Some n')
             \<and> records n' = pre @ post
             \<and> num_attrs (element n') = num_attrs (element n) - 1))
       \<and> (Some nm \<notin> set (names n) \<longrightarrow>
             mxmlElementDeleteAttr w (Some n) (Some nm) = Inr (w, Some n))"
proof (intro conjI impI)
  assume "Some nm \<in> set (names n)"
  then obtain pre a post where split: "records n = pre @ a # post"
    "Some nm \<notin> set (map attr_name pre)" "attr_name a = Some nm"
    unfolding names_def by (rule first_match)
  from delete_attr_present_ex [OF assms split, of w] split
  show "\<exists>pre a post n'.
               records n = pre @ a # post
             \<and> Some nm \<notin> set (map attr_name pre) \<and> attr_name a = Some nm
             \<and> mxmlElementDeleteAttr w (Some n) (Some nm) = Inr (w, Some n')
             \<and> records n' = pre @ post
             \<and> num_attrs (element n') = num_attrs (element n) - 1"
    by blast
next
  assume "Some nm \<notin> set (names n)"
  then show "mxmlElementDeleteAttr w (Some n) (Some nm) = Inr (w, Some n)"
    by (rule delete_attr_absent [OF assms])
qed

theorem C4_delete_by_name_witness:
  "wf_node img_src_alt \<and> ntype img_src_alt = MXML_ELEMENT
   \<and> Some ''src'' \<in> set (names img_src_alt)
   \<and> (\<exists>pre a post n'.
          records img_src_alt = pre @ a # post
        \<and> Some ''src'' \<notin> set (map attr_name pre) \<and> attr_name a = Some ''src''
        \<and> mxmlElementDeleteAttr world_ok (Some img_src_alt) (Some ''src'') = Inr (world_ok, Some n')
        \<and> records n' = pre @ post
        \<and> num_attrs (element n') = num_attrs (element img_src_alt) - 1)
   \<and> Some ''id'' \<notin> set (names img_src_alt)
   \<and> mxmlElementDeleteAttr world_ok (Some img_src_alt) (Some ''id'')
       = Inr (world_ok, Some img_src_alt)"
proof -
  have h1: "wf_node img_src_alt"
    by (simp add: obs_defs data_defs)
  have h2: "ntype img_src_alt = MXML_ELEMENT"
    by (simp add: data_defs)
  have h3: "Some ''src'' \<in> set (names img_src_alt)"
    by (simp add: obs_defs data_defs)
  have h4: "Some ''id'' \<notin> set (names img_src_alt)"
    by (simp add: obs_defs data_defs)
  from C4_delete_by_name [OF h1 h2, of "''src''" world_ok]
    C4_delete_by_name [OF h1 h2, of "''id''" world_ok] h1 h2 h3 h4
  show ?thesis by blast
qed

text \<open>
  C5. "After SetValue(E,N,V1) and SetValue(E,N,V2) both succeed, the store holds exactly one
  record named N, with value V2, at an unchanged position, and the count is unchanged."
  Position and count are kept (see \<open>set_attr_present_ex\<close>), but the value is not V2 when
  its copy fails: on the empty \<^verbatim>\<open>img\<close>, \<^verbatim>\<open>mxmlElementSetAttr(img, "src", "a.png")\<close>
  followed by \<^verbatim>\<open>mxmlElementSetAttr(img, "src", "b.png")\<close> with the copy of
  \<^verbatim>\<open>"b.png"\<close> failing has \<^verbatim>\<open>mxml_set_attr\<close> return 0 both times and leaves
  the one record \<^verbatim>\<open>src\<close> with a \<^verbatim>\<open>NULL\<close> value.
\<close>

theorem C5_second_set_loses_value:
  "set_status world_ok img_empty ''src'' (Some ''a.png'') = Inr 0
   \<and> mxmlElementSetAttr world_ok (Some img_empty) (Some ''src'') (Some ''a.png'')
       = Inr (world_ok, Some img_src)
   \<and> set_status world_fail_first img_src ''src'' (Some ''b.png'') = Inr 0
   \<and> mxmlElementSetAttr world_fail_first (Some img_src) (Some ''src'') (Some ''b.png'')
       = Inr (world_ok,
              Some \<lparr>ntype = MXML_ELEMENT,
                    element = \<lparr>el_name = ''img'', num_attrs = 1,
                               attrs = [\<lparr>attr_name = Some ''src'', attr_value = None\<rparr>]\<rparr>\<rparr>)"
  by (simp add: run_defs data_defs)

text \<open>
  C6. "GetNameByValue returns the name of the first record whose value equals V, or absent;
  a record whose value is absent never matches." The loop of
  \<^verbatim>\<open>mxmlElementGetAttrName\<close> hands \<^verbatim>\<open>attr->value\<close> to \<^verbatim>\<open>strcmp\<close> without
  a test for \<^verbatim>\<open>NULL\<close>. After \<^verbatim>\<open>mxmlElementSetAttr(img, "alt", NULL)\<close> on the
  empty \<^verbatim>\<open>img\<close>, which stores a record without a value,
  \<^verbatim>\<open>mxmlElementGetAttrName(img, "pic")\<close> dereferences \<^verbatim>\<open>NULL\<close> instead of
  returning \<^verbatim>\<open>NULL\<close>.
\<close>

theorem C6_valueless_record_faults:
  "mxmlElementSetAttr world_ok (Some img_empty) (Some ''alt'') None
     = Inr (world_ok,
            Some \<lparr>ntype = MXML_ELEMENT,
                  element = \<lparr>el_name = ''img'', num_attrs = 1,
                             attrs = [\<lparr>attr_name = Some ''alt'', attr_value = None\<rparr>]\<rparr>\<rparr>)
   \<and> mxmlElementGetAttrName
         (Some \<lparr>ntype = MXML_ELEMENT,
                element = \<lparr>el_name = ''img'', num_attrs = 1,
                           attrs = [\<lparr>attr_name = Some ''alt'', attr_value = None\<rparr>]\<rparr>\<rparr>)
         (Some ''pic'') = Inl NullDeref"
  by (simp add: run_defs data_defs)

text \<open>
  C7, for absent arguments. Called with a \<^verbatim>\<open>NULL\<close> node, with a node that is not an element, or
  with a \<^verbatim>\<open>NULL\<close> name (for \<^verbatim>\<open>mxmlElementGetAttrName\<close>: a \<^verbatim>\<open>NULL\<close> value to
  look for), each of the five operations does nothing: the getters return \<^verbatim>\<open>NULL\<close>, the
  others return the world and the node as they were (no allocation consumed, no report, no
  change of the node). An empty name is not among the rejected arguments.
\<close>

theorem C7_invalid_argument_is_noop:
  assumes "node = None \<or> (\<exists>n. node = Some n \<and> ntype n \<noteq> MXML_ELEMENT) \<or> name = None"
  shows "mxmlElementGetAttrValue node name = Inr None
       \<and> mxmlElementGetAttrName node name = Inr None
       \<and> mxmlElementSetAttr w node name val = Inr (w, node)
       \<and> mxmlElementSetAttrf vstrdupf w node name format ap = Inr (w, node)
       \<and> mxmlElementDeleteAttr w node name = Inr (w, node)"
  using assms
  by (auto simp: mxmlElementGetAttrValue_def mxmlElementGetAttrName_def mxmlElementSetAttr_def
      mxmlElementSetAttrf_def mxmlElementDeleteAttr_def split: option.splits)

theorem C7_invalid_argument_is_noop_witness:
  "(Some text_node = None \<or> (\<exists>n. Some text_node = Some n \<and> ntype n \<noteq> MXML_ELEMENT)
      \<or> Some ''src'' = None)
   \<and> mxmlElementGetAttrValue (Some text_node) (Some ''src'') = Inr None
   \<and> mxmlElementGetAttrName (Some text_node) (Some ''src'') = Inr None
   \<and> mxmlElementSetAttr world_fail_first (Some text_node) (Some ''src'') (Some ''a.png'')
       = Inr (world_fail_first, Some text_node)
   \<and> mxmlElementSetAttrf (\<lambda>fmt ap. Some (fmt @ ap)) world_fail_first (Some text_node)
         (Some ''src'') (Some ''%s'') ''a.png''
       = Inr (world_fail_first, Some text_node)
   \<and> mxmlElementDeleteAttr world_fail_first (Some text_node) (Some ''src'')
       = Inr (world_fail_first, Some text_node)"
proof -
  have h: "Some text_node = None \<or> (\<exists>n. Some text_node = Some n \<and> ntype n \<noteq> MXML_ELEMENT)
      \<or> Some ''src'' = None"
    by (simp add: data_defs)
  from C7_invalid_argument_is_noop [OF h, of world_fail_first "Some ''a.png''"
      "\<lambda>fmt ap. Some (fmt @ ap)" "Some ''%s''" "''a.png''"] h
  show ?thesis by blast
qed

text \<open>
  C7, for the empty name: no operation of the file tests for it.
  \<^verbatim>\<open>mxmlElementSetAttr(img, "", "v")\<close> on the empty element \<^verbatim>\<open>img\<close> does not
  return the node as it was, it adds a record whose name is the empty string.
\<close>

theorem C7_empty_name_counterexample:
  "mxmlElementSetAttr world_ok (Some img_empty) (Some []) (Some ''v'')
     \<noteq> Inr (world_ok, Some img_empty)
   \<and> mxmlElementSetAttr world_ok (Some img_empty) (Some []) (Some ''v'')
     = Inr (world_ok,
            Some \<lparr>ntype = MXML_ELEMENT,
                  element = \<lparr>el_name = ''img'', num_attrs = 1,
                             attrs = [\<lparr>attr_name = Some [], attr_value = Some ''v''\<rparr>]\<rparr>\<rparr>)"
  by (simp add: run_defs data_defs)

text \<open>
  C8. On an element, with a name and a format given: when \<^verbatim>\<open>_mxml_vstrdupf\<close> returns
  \<^verbatim>\<open>NULL\<close>, \<^verbatim>\<open>mxmlElementSetAttrf\<close> makes exactly one report and returns the node as
  it was; when it returns the string \<open>s\<close>, the world and the node after the call are those
  after \<^verbatim>\<open>mxmlElementSetAttr\<close> with the value \<open>s\<close>, started in any world \<open>w0\<close> in
  which the copy of \<open>s\<close> succeeds and leaves the world \<open>w\<close>.
\<close>

theorem C8_formatted_set:
  assumes "ntype n = MXML_ELEMENT"
  shows "(vstrdupf fmt ap = None \<longrightarrow>
            mxmlElementSetAttrf vstrdupf w (Some n) (Some nm) (Some fmt) ap
              = Inr (w\<lparr>errors := errors w @ [alloc_message nm (el_name (element n))]\<rparr>, Some n))
       \<and> (\<forall>s w0. vstrdupf fmt ap = Some s \<and> copy_value (Some s) w0 = (Some s, w) \<longrightarrow>
            mxmlElementSetAttrf vstrdupf w (Some n) (Some nm) (Some fmt) ap
              = mxmlElementSetAttr w0 (Some n) (Some nm) (Some s))"
  using assms by (simp add: mxmlElementSetAttrf_def mxmlElementSetAttr_def mxml_error_def)

theorem C8_formatted_set_witness:
  "ntype img_src = MXML_ELEMENT
   \<and> (\<lambda>fmt ap. if fmt = ''%s'' then Some ap else None) ''%q'' ''100'' = None
   \<and> mxmlElementSetAttrf (\<lambda>fmt ap. if fmt = ''%s'' then Some ap else None) world_ok
         (Some img_src) (Some ''width'') (Some ''%q'') ''100''
       = Inr (world_ok\<lparr>errors := errors world_ok
                 @ [alloc_message ''width'' (el_name (element img_src))]\<rparr>, Some img_src)
   \<and> (\<lambda>fmt ap. if fmt = ''%s'' then Some ap else None) ''%s'' ''100'' = Some ''100''
   \<and> copy_value (Some ''100'') world_ok = (Some ''100'', world_ok)
   \<and> mxmlElementSetAttrf (\<lambda>fmt ap. if fmt = ''%s'' then Some ap else None) world_ok
         (Some img_src) (Some ''width'') (Some ''%s'') ''100''
       = mxmlElementSetAttr world_ok (Some img_src) (Some ''width'') (Some ''100'')"
proof -
  let ?F = "\<lambda>fmt ap. if fmt = ''%s'' then Some ap else None"
  have h1: "ntype img_src = MXML_ELEMENT"
    by (simp add: data_defs)
  have h2: "?F ''%q'' ''100'' = None" by simp
  have h3: "?F ''%s'' ''100'' = Some ''100''" by simp
  have h4: "copy_value (Some ''100'') world_ok = (Some ''100'', world_ok)"
    by (simp add: copy_value_def strdup_def alloc_def data_defs)
  from C8_formatted_set [OF h1, of ?F "''%q''" "''100''" world_ok "''width''"] h2
  have a: "mxmlElementSetAttrf ?F world_ok (Some img_src) (Some ''width'') (Some ''%q'') ''100''
       = Inr (world_ok\<lparr>errors := errors world_ok
                 @ [alloc_message ''width'' (el_name (element img_src))]\<rparr>, Some img_src)"
    by blast
  from C8_formatted_set [OF h1, of ?F "''%s''" "''100''" world_ok "''width''"] h3 h4
  have b: "mxmlElementSetAttrf ?F world_ok (Some img_src) (Some ''width'') (Some ''%s'') ''100''
       = mxmlElementSetAttr world_ok (Some img_src) (Some ''width'') (Some ''100'')"
    by blast
  from h1 h2 h3 h4 a b show ?thesis by blast
qed

text \<open>
  C9. On a well-formed element whose records have pairwise distinct names (and whose count
  is below \<^verbatim>\<open>INT_MAX\<close>), \<^verbatim>\<open>mxmlElementSetAttr\<close>, \<^verbatim>\<open>mxmlElementSetAttrf\<close> and
  \<^verbatim>\<open>mxmlElementDeleteAttr\<close> complete, for any arguments and any allocator, and leave a
  well-formed node whose records have pairwise distinct names.
  \<^verbatim>\<open>mxmlElementGetAttrValue\<close> and \<^verbatim>\<open>mxmlElementGetAttrName\<close> write nothing: they are
  functions of the node that return a string only.
\<close>

theorem C9_names_stay_unique:
  assumes "wf_node n" "ntype n = MXML_ELEMENT" "distinct (names n)"
    "num_attrs (element n) < INT_MAX"
  shows "(\<exists>w' n'. mxmlElementSetAttr w (Some n) name val = Inr (w', Some n')
             \<and> wf_node n' \<and> distinct (names n'))
       \<and> (\<exists>w' n'. mxmlElementSetAttrf vstrdupf w (Some n) name format ap = Inr (w', Some n')
             \<and> wf_node n' \<and> distinct (names n'))
       \<and> (\<exists>w' n'. mxmlElementDeleteAttr w (Some n) name = Inr (w', Some n')
             \<and> wf_node n' \<and> distinct (names n'))"
proof (intro conjI)
  show "\<exists>w' n'. mxmlElementSetAttr w (Some n) name val = Inr (w', Some n')
             \<and> wf_node n' \<and> distinct (names n')"
  proof (cases name)
    case None
    with assms show ?thesis by (simp add: mxmlElementSetAttr_def)
  next
    case (Some nm)
    obtain valuec w1 where cv: "copy_value val w = (valuec, w1)"
      by (cases "copy_value val w")
    from set_attr_keeps_wf [OF assms(1,4), of w1 nm valuec] assms(3)
    obtain rc w' n' where "mxml_set_attr w1 n nm valuec = Inr (rc, w', n')"
      "wf_node n'" "distinct (names n')"
      by blast
    with assms(2) cv Some show ?thesis by (simp add: mxmlElementSetAttr_def)
  qed
next
  show "\<exists>w' n'. mxmlElementSetAttrf vstrdupf w (Some n) name format ap = Inr (w', Some n')
             \<and> wf_node n' \<and> distinct (names n')"
  proof (cases "\<exists>nm fmt v. name = Some nm \<and> format = Some fmt \<and> vstrdupf fmt ap = Some v")
    case False
    with assms show ?thesis
      by (auto simp: mxmlElementSetAttrf_def split: option.splits)
  next
    case True
    then obtain nm fmt v where args: "name = Some nm" "format = Some fmt" "vstrdupf fmt ap = Some v"
      by blast
    from set_attr_keeps_wf [OF assms(1,4), of w nm "Some v"] assms(3)
    obtain rc w' n' where "mxml_set_attr w n nm (Some v) = Inr (rc, w', n')"
      "wf_node n'" "distinct (names n')"
      by blast
    with assms(2) args show ?thesis by (simp add: mxmlElementSetAttrf_def)
  qed
next
  show "\<exists>w' n'. mxmlElementDeleteAttr w (Some n) name = Inr (w', Some n')
             \<and> wf_node n' \<and> distinct (names n')"
  proof (cases name)
    case None
    with assms show ?thesis by (simp add: mxmlElementDeleteAttr_def)
  next
    case (Some nm)
    with delete_attr_keeps_wf [OF assms(1,2), of w nm] assms(3) show ?thesis by blast
  qed
qed

theorem C9_names_stay_unique_witness:
  "wf_node img_src_alt \<and> ntype img_src_alt = MXML_ELEMENT \<and> distinct (names img_src_alt)
   \<and> num_attrs (element img_src_alt) < INT_MAX
   \<and> (\<exists>w' n'. mxmlElementSetAttr world_ok (Some img_src_alt) (Some ''width'') (Some ''100'')
                   = Inr (w', Some n')
          \<and> wf_node n' \<and> distinct (names n'))
   \<and> (\<exists>w' n'. mxmlElementSetAttrf (\<lambda>fmt ap. Some (fmt @ ap)) world_ok (Some img_src_alt)
                   (Some ''src'') (Some ''b'') ''.png''
                   = Inr (w', Some n')
          \<and> wf_node n' \<and> distinct (names n'))
   \<and> (\<exists>w' n'. mxmlElementDeleteAttr world_ok (Some img_src_alt) (Some ''width'')
                   = Inr (w', Some n')
          \<and> wf_node n' \<and> distinct (names n'))"
proof -
  have h1: "wf_node img_src_alt"
    by (simp add: obs_defs data_defs)
  have h2: "ntype img_src_alt = MXML_ELEMENT"
    by (simp add: data_defs)
  have h3: "distinct (names img_src_alt)"
    by (simp add: obs_defs data_defs)
  have h4: "num_attrs (element img_src_alt) < INT_MAX"
    by (simp add: data_defs INT_MAX_def)
  from C9_names_stay_unique [OF h1 h2 h3 h4, of world_ok "Some ''width''" "Some ''100''"
      "\<lambda>fmt ap. Some (fmt @ ap)" "Some ''b''" "''.png''"]
  have a: "\<exists>w' n'. mxmlElementSetAttr world_ok (Some img_src_alt) (Some ''width'') (Some ''100'')
                   = Inr (w', Some n')
          \<and> wf_node n' \<and> distinct (names n')"
    and c: "\<exists>w' n'. mxmlElementDeleteAttr world_ok (Some img_src_alt) (Some ''width'')
                   = Inr (w', Some n')
          \<and> wf_node n' \<and> distinct (names n')"
    by blast+
  from C9_names_stay_unique [OF h1 h2 h3 h4, of world_ok "Some ''src''" None
      "\<lambda>fmt ap. Some (fmt @ ap)" "Some ''b''" "''.png''"]
  have b: "\<exists>w' n'. mxmlElementSetAttrf (\<lambda>fmt ap. Some (fmt @ ap)) world_ok (Some img_src_alt)
                   (Some ''src'') (Some ''b'') ''.png''
                   = Inr (w', Some n')
          \<and> wf_node n' \<and> distinct (names n')"
    by blast
  from h1 h2 h3 h4 a b c show ?thesis by blast
qed

text \<open>
  C10. On an element whose attribute sequence already holds a record named \<open>nm\<close>,
  \<^verbatim>\<open>mxmlElementSetAttr\<close> completes, the inner \<^verbatim>\<open>mxml_set_attr\<close> returns 0, and
  nothing is added to the error log, whatever the allocator does. The first record named
  \<open>nm\<close> keeps its place and receives the copy of the value; when that copy fails
  (the next allocation of the plan is a failure), it receives \<^verbatim>\<open>NULL\<close> and
  \<^verbatim>\<open>mxmlElementGetAttrValue\<close> then returns \<^verbatim>\<open>NULL\<close> for \<open>nm\<close>.
\<close>

theorem C10_overwrite_never_reports:
  assumes "wf_node n" "ntype n = MXML_ELEMENT" "Some nm \<in> set (names n)"
  shows "\<exists>w' n' pre a post.
           mxmlElementSetAttr w (Some n) (Some nm) val = Inr (w', Some n')
         \<and> set_status w n nm val = Inr 0
         \<and> errors w' = errors w
         \<and> records n = pre @ a # post
         \<and> Some nm \<notin> set (map attr_name pre) \<and> attr_name a = Some nm
         \<and> records n' = pre @ a\<lparr>attr_value := fst (copy_value val w)\<rparr> # post
         \<and> (\<forall>v p. val = Some v \<and> alloc_plan w = False # p \<longrightarrow>
               fst (copy_value val w) = None
             \<and> mxmlElementGetAttrValue (Some n') (Some nm) = Inr None)"
proof -
  obtain pre a post where split: "records n = pre @ a # post"
    "Some nm \<notin> set (map attr_name pre)" "attr_name a = Some nm"
    using assms(3) unfolding names_def by (rule first_match)
  obtain valuec w1 where cv: "copy_value val w = (valuec, w1)"
    by (cases "copy_value val w")
  obtain n' where n': "mxml_set_attr w1 n nm valuec = Inr (0, w1, n')"
    "ntype n' = ntype n" "records n' = pre @ a\<lparr>attr_value := valuec\<rparr> # post" "wf_node n'"
    using set_attr_present_ex [OF assms(1) split, of w1 valuec] by blast
  have get: "mxmlElementGetAttrValue (Some n') (Some nm) = Inr valuec"
    using get_value_present [OF n'(4) _ n'(3) split(2)] n'(2) assms(2) split(3) by simp
  have fails: "valuec = None" if "val = Some v" "alloc_plan w = False # p" for v p
    using copy_value_fails [OF that(2), of v] cv that(1) by simp
  have "mxmlElementSetAttr w (Some n) (Some nm) val = Inr (w1, Some n')"
    using assms(2) cv n'(1) by (simp add: mxmlElementSetAttr_def)
  moreover have "set_status w n nm val = Inr 0"
    using cv n'(1) by (simp add: set_status_def)
  moreover have "errors w1 = errors w"
    by (rule copy_value_errors [OF cv])
  ultimately show ?thesis
    using split n'(3) get fails cv by (intro exI [of _ w1] exI [of _ n'] exI [of _ pre] exI [of _ a] exI [of _ post]) auto
qed

theorem C10_overwrite_never_reports_witness:
  "wf_node img_src \<and> ntype img_src = MXML_ELEMENT \<and> Some ''src'' \<in> set (names img_src)
   \<and> alloc_plan world_fail_first = False # []
   \<and> (\<exists>w' n'. mxmlElementSetAttr world_fail_first (Some img_src) (Some ''src'') (Some ''b.png'')
                   = Inr (w', Some n')
          \<and> set_status world_fail_first img_src ''src'' (Some ''b.png'') = Inr 0
          \<and> errors w' = errors world_fail_first
          \<and> mxmlElementGetAttrValue (Some n') (Some ''src'') = Inr None)"
proof -
  have h1: "wf_node img_src"
    by (simp add: wf_node_def records_def named_def img_src_def)
  have h2: "ntype img_src = MXML_ELEMENT"
    by (simp add: img_src_def)
  have h3: "Some ''src'' \<in> set (names img_src)"
    by (simp add: names_def records_def img_src_def)
  have h4: "alloc_plan world_fail_first = False # []"
    by (simp add: world_fail_first_def)
  from C10_overwrite_never_reports [OF h1 h2 h3, of world_fail_first "Some ''b.png''"] h4
  have "\<exists>w' n'. mxmlElementSetAttr world_fail_first (Some img_src) (Some ''src'') (Some ''b.png'')
                   = Inr (w', Some n')
          \<and> set_status world_fail_first img_src ''src'' (Some ''b.png'') = Inr 0
          \<and> errors w' = errors world_fail_first
          \<and> mxmlElementGetAttrValue (Some n') (Some ''src'') = Inr None"
    by blast
  with h1 h2 h3 h4 show ?thesis by blast
qed

end
